theory Spec2Isabelle
  imports Main "HOL-Library.Monad_Syntax"
begin

section \<open>Syntax nodes (mypy.nodes)\<close>

text \<open>
  The two passes verified here, \<^verbatim>\<open>mypy/exprtotype.py\<close> and
  \<^verbatim>\<open>mypyc/irbuild/prebuildvisitor.py\<close>, read the node classes of
  \<^verbatim>\<open>mypy.nodes\<close>.  Every Python object has an identity; dictionaries and
  sets of the pre-build visitor are keyed by it.  A function item (\<^verbatim>\<open>FuncDef\<close>,
  \<^verbatim>\<open>LambdaExpr\<close>), a variable (\<^verbatim>\<open>Var\<close>) and a \<^verbatim>\<open>TypeInfo\<close> are
  therefore named by a natural number that stands for the identity of the object.
\<close>

type_synonym pos = "int \<times> int"
  \<comment> \<open>\<^verbatim>\<open>(line, column)\<close> of a node\<close>

type_synonym func_id = nat
type_synonym var_id = nat
type_synonym typeinfo_id = nat

text \<open>
  The \<^verbatim>\<open>node\<close> attribute of a \<^verbatim>\<open>RefExpr\<close>: the symbol the reference was bound
  to by semantic analysis, if any.  A \<^verbatim>\<open>Decorator\<close> node is named by the identity of
  its \<^verbatim>\<open>func\<close>.
\<close>

datatype node_ref =
    NoNode
  | VarNode var_id
  | FuncDefNode func_id
  | TypeInfoNode typeinfo_id
  | DecoratorNode func_id
  | OtherNode

text \<open>
  The (proper) type stored in \<^verbatim>\<open>Var.type\<close>, as far as the visitor looks at it: it
  is absent, an \<^verbatim>\<open>Instance\<close> of a \<^verbatim>\<open>TypeInfo\<close>, or something else.
\<close>

datatype var_type = NoType | Instance typeinfo_id | OtherType

text \<open>
  Expressions.  \<^verbatim>\<open>NameExpr\<close> and \<^verbatim>\<open>MemberExpr\<close> are the two \<^verbatim>\<open>RefExpr\<close>
  classes: they carry \<^verbatim>\<open>fullname\<close> and \<^verbatim>\<open>node\<close>.  \<^verbatim>\<open>CallExpr\<close> has the
  parallel lists \<^verbatim>\<open>args\<close> and \<^verbatim>\<open>arg_names\<close>.  A \<^verbatim>\<open>LambdaExpr\<close> is a function
  item whose body is the returned expression.  The value of a \<^verbatim>\<open>FloatExpr\<close> or a
  \<^verbatim>\<open>ComplexExpr\<close> is never read by the code below and is left out.
\<close>

datatype expr =
    NameExpr pos string "string option" node_ref
  | MemberExpr pos expr string "string option" node_ref
  | IndexExpr pos expr expr
  | TupleExpr pos "expr list"
  | ListExpr pos "expr list"
  | CallExpr pos expr "expr list" "string option list"
  | OpExpr pos string expr expr
  | UnaryExpr pos string expr
  | IntExpr pos int
  | FloatExpr pos
  | ComplexExpr pos
  | StrExpr pos string bool
  | BytesExpr pos string
  | UnicodeExpr pos string
  | EllipsisExpr pos
  | LambdaExpr pos func_id "argument list" expr
and argument =
    Argument var_id var_type "expr option"

fun is_RefExpr :: "expr \<Rightarrow> bool" where
  "is_RefExpr (NameExpr _ _ _ _) = True"
| "is_RefExpr (MemberExpr _ _ _ _ _) = True"
| "is_RefExpr _ = False"

fun is_ListExpr :: "expr \<Rightarrow> bool" where
  "is_ListExpr (ListExpr _ _) = True"
| "is_ListExpr _ = False"

fun ref_fullname :: "expr \<Rightarrow> string option" where
  "ref_fullname (NameExpr _ _ fn _) = fn"
| "ref_fullname (MemberExpr _ _ _ fn _) = fn"
| "ref_fullname _ = None"

fun ref_node :: "expr \<Rightarrow> node_ref" where
  "ref_node (NameExpr _ _ _ n) = n"
| "ref_node (MemberExpr _ _ _ _ n) = n"
| "ref_node _ = NoNode"

text \<open>
  Modelled from the spec: \<^verbatim>\<open>get_member_expr_fullname\<close> of \<^verbatim>\<open>mypy.nodes\<close> is not
  among the sources.  The spec says of a member-access chain that it yields the dotted
  full name and fails if the chain does not reduce to a dotted name.
\<close>

fun get_member_expr_fullname :: "expr \<Rightarrow> string option" where
  "get_member_expr_fullname (MemberExpr _ (NameExpr _ n _ _) name _ _) =
     Some (n @ ''.'' @ name)"
| "get_member_expr_fullname (MemberExpr _ (MemberExpr q e m f k) name _ _) =
     (case get_member_expr_fullname (MemberExpr q e m f k) of
        None \<Rightarrow> None
      | Some initial \<Rightarrow> Some (initial @ ''.'' @ name))"
| "get_member_expr_fullname _ = None"

section \<open>Type descriptors (mypy.types)\<close>

text \<open>
  Modelled from the spec: the classes of \<^verbatim>\<open>mypy.types\<close> are not among the sources.
  The spec's data model gives the variants and their fields; the constructor calls in
  \<^verbatim>\<open>exprtotype.py\<close> give the order of the arguments.  A literal value is what
  Python stores in \<^verbatim>\<open>RawExpressionType.literal_value\<close>: \<^verbatim>\<open>None\<close>, a bool, an
  int or (from the string parser) a str.
\<close>

datatype literal_value = LitNone | LitBool bool | LitInt int | LitStr string

datatype TypeOfAny = unannotated | explicit | from_error

datatype proper_type =
    UnboundType string "proper_type list" bool pos
      \<comment> \<open>name, args, \<^verbatim>\<open>empty_tuple_index\<close>, position\<close>
  | TypeList "proper_type list" pos
  | RawExpressionType literal_value string pos
  | CallableArgument proper_type "string option" string pos
  | EllipsisType int
  | UnionType "proper_type list"
  | AnyType TypeOfAny

text \<open>
  Python's \<^verbatim>\<open>isinstance(v, int)\<close> holds of a bool as well (\<^verbatim>\<open>bool\<close> is a subclass
  of \<^verbatim>\<open>int\<close>), and \<^verbatim>\<open>v *= -1\<close> on a bool gives the int \<^verbatim>\<open>-1\<close> or \<^verbatim>\<open>0\<close>.
\<close>

fun isinstance_int :: "literal_value \<Rightarrow> bool" where
  "isinstance_int (LitInt _) = True"
| "isinstance_int (LitBool _) = True"
| "isinstance_int _ = False"

fun times_minus_one :: "literal_value \<Rightarrow> literal_value" where
  "times_minus_one (LitInt v) = LitInt (v * (- 1))"
| "times_minus_one (LitBool b) = LitInt ((if b then 1 else 0) * (- 1))"
| "times_minus_one v = v"

record Options =
  python_version :: "nat \<times> nat"

text \<open>Python compares tuples lexicographically: \<^verbatim>\<open>v >= (3, 10)\<close>.\<close>

definition version_ge_3_10 :: "nat \<times> nat \<Rightarrow> bool" where
  "version_ge_3_10 v = (fst v > 3 \<or> (fst v = 3 \<and> snd v \<ge> 10))"

section \<open>The type expression translator (mypy/exprtotype.py)\<close>

datatype error = TypeTranslationError | IndexError

fun extract_argument_name :: "expr \<Rightarrow> error + string option" where
  "extract_argument_name (NameExpr p name fn n) =
     (if name = ''None'' then Inr None else Inl TypeTranslationError)"
| "extract_argument_name (StrExpr p v u) = Inr (Some v)"
| "extract_argument_name (UnicodeExpr p v) = Inr (Some v)"
| "extract_argument_name _ = Inl TypeTranslationError"

text \<open>
  The loop over the callee of a \<^verbatim>\<open>CallExpr\<close>: it walks the dotted member chain down
  to a name and collects the names on the way.
\<close>

fun callee_names :: "expr \<Rightarrow> string list \<Rightarrow> error + string list" where
  "callee_names (NameExpr _ n _ _) names = Inr (names @ [n])"
| "callee_names (MemberExpr _ e n _ _) names = callee_names e (names @ [n])"
| "callee_names _ names = Inl TypeTranslationError"

fun join :: "string \<Rightarrow> string list \<Rightarrow> string" where
  "join sep [] = []"
| "join sep [x] = x"
| "join sep (x # y # ys) = x @ sep @ join sep (y # ys)"

text \<open>The subscript arguments of an \<^verbatim>\<open>IndexExpr\<close>: the items of a tuple index, or the index alone.\<close>

fun index_args :: "expr \<Rightarrow> expr list" where
  "index_args (TupleExpr _ items) = items"
| "index_args index = [index]"

definition annotated_names :: "string list" where
  "annotated_names = [''typing.Annotated'', ''typing_extensions.Annotated'']"

definition is_annotated :: "expr \<Rightarrow> bool" where
  "is_annotated base =
     (is_RefExpr base \<and>
      (case ref_fullname base of None \<Rightarrow> False | Some f \<Rightarrow> f \<in> set annotated_names))"

type_synonym parse_type_string = "string \<Rightarrow> string \<Rightarrow> int \<Rightarrow> int \<Rightarrow> bool \<Rightarrow> proper_type"

lemma index_args_size:
  "a \<in> set (index_args i) \<Longrightarrow> size a \<le> size i"
  by (cases i) (auto intro: le_SucI size_list_estimation')

lemma index_args_head:
  "index_args i = a # as \<Longrightarrow> size a \<le> size i"
  using index_args_size [of a i] by simp

lemma index_args_size_list:
  "2 * size_list size (index_args i) < Suc (Suc (Suc (k + 2 * size i)))"
  by (cases i) auto

text \<open>
  \<^verbatim>\<open>expr_to_unanalyzed_type(expr, options, _parent)\<close>.  The string parser
  \<^verbatim>\<open>parse_type_string\<close> of \<^verbatim>\<open>mypy.fastparse\<close> is not among the sources and is
  the parameter \<open>pts\<close>.  An \<^verbatim>\<open>Options\<close> object is always truthy, so the test
  \<^verbatim>\<open>options and ...\<close> asks whether options were passed.  The local \<^verbatim>\<open>typ\<close> of
  the \<^verbatim>\<open>CallExpr\<close> branch is \<open>None\<close> as long as it is the object
  \<^verbatim>\<open>default_type\<close> (the test \<^verbatim>\<open>typ is not default_type\<close> compares identities, and
  no translation returns that object).

  \<open>translate_items\<close> is the comprehension over a sequence of expressions, and
  \<open>callable_args\<close> the loop \<^verbatim>\<open>for i, arg in enumerate(expr.args)\<close> with its locals
  \<^verbatim>\<open>name\<close> and \<^verbatim>\<open>typ\<close>; it reads \<^verbatim>\<open>expr.arg_names[i]\<close> from the rest of
  the list of names, and Python raises \<^verbatim>\<open>IndexError\<close> when that list is too short.
\<close>

function (sequential)
  expr_to_unanalyzed_type ::
    "parse_type_string \<Rightarrow> expr \<Rightarrow> Options option \<Rightarrow> expr option \<Rightarrow> error + proper_type"
and translate_items ::
    "parse_type_string \<Rightarrow> expr list \<Rightarrow> Options option \<Rightarrow> expr option \<Rightarrow> error + proper_type list"
and callable_args ::
    "parse_type_string \<Rightarrow> nat \<Rightarrow> expr list \<Rightarrow> string option list \<Rightarrow> Options option \<Rightarrow> expr option
       \<Rightarrow> string option \<Rightarrow> proper_type option \<Rightarrow> error + (string option \<times> proper_type option)"
where
  "expr_to_unanalyzed_type pts (NameExpr p name fn nd) options parent =
     (if name = ''True'' then Inr (RawExpressionType (LitBool True) ''builtins.bool'' p)
      else if name = ''False'' then Inr (RawExpressionType (LitBool False) ''builtins.bool'' p)
      else Inr (UnboundType name [] False p))"
| "expr_to_unanalyzed_type pts (MemberExpr p e name fn nd) options parent =
     (case get_member_expr_fullname (MemberExpr p e name fn nd) of
        None \<Rightarrow> Inl TypeTranslationError
      | Some fullname \<Rightarrow>
          if fullname \<noteq> [] then Inr (UnboundType fullname [] False p)
          else Inl TypeTranslationError)"
| "expr_to_unanalyzed_type pts (IndexExpr p b index) options parent =
     (case expr_to_unanalyzed_type pts b options (Some (IndexExpr p b index)) of
        Inl err \<Rightarrow> Inl err
      | Inr (UnboundType name bargs eti q) \<Rightarrow>
          if bargs \<noteq> [] then Inl TypeTranslationError
          else if is_annotated b then
            (case index_args index of
               [] \<Rightarrow> Inl IndexError
             | a # _ \<Rightarrow> expr_to_unanalyzed_type pts a options (Some (IndexExpr p b index)))
          else
            (case translate_items pts (index_args index) options (Some (IndexExpr p b index)) of
               Inl err \<Rightarrow> Inl err
             | Inr args \<Rightarrow> Inr (UnboundType name args (if args = [] then True else eti) q))
      | Inr _ \<Rightarrow> Inl TypeTranslationError)"
| "expr_to_unanalyzed_type pts (OpExpr p opr l r) options parent =
     (if opr = ''|'' \<and> (case options of None \<Rightarrow> False
                                          | Some opt \<Rightarrow> version_ge_3_10 (python_version opt)) then
        (case expr_to_unanalyzed_type pts l options None of
           Inl err \<Rightarrow> Inl err
         | Inr lt \<Rightarrow>
            (case expr_to_unanalyzed_type pts r options None of
               Inl err \<Rightarrow> Inl err
             | Inr rt \<Rightarrow> Inr (UnionType [lt, rt])))
      else Inl TypeTranslationError)"
| "expr_to_unanalyzed_type pts (CallExpr p callee args arg_names) options parent =
     (if (case parent of None \<Rightarrow> False | Some pe \<Rightarrow> is_ListExpr pe) then
        (case callee_names callee [] of
           Inl err \<Rightarrow> Inl err
         | Inr names \<Rightarrow>
            (case callable_args pts 0 args arg_names options
                    (Some (CallExpr p callee args arg_names)) None None of
               Inl err \<Rightarrow> Inl err
             | Inr (name, typ) \<Rightarrow>
                 Inr (CallableArgument
                        (case typ of None \<Rightarrow> AnyType unannotated | Some t \<Rightarrow> t)
                        name (join ''.'' (rev names)) p)))
      else Inl TypeTranslationError)"
| "expr_to_unanalyzed_type pts (ListExpr p items) options parent =
     (case translate_items pts items options (Some (ListExpr p items)) of
        Inl err \<Rightarrow> Inl err
      | Inr ts \<Rightarrow> Inr (TypeList ts p))"
| "expr_to_unanalyzed_type pts (StrExpr p v from_python_3) options parent =
     Inr (pts v ''builtins.str'' (fst p) (snd p) from_python_3)"
| "expr_to_unanalyzed_type pts (BytesExpr p v) options parent =
     Inr (pts v ''builtins.bytes'' (fst p) (snd p) False)"
| "expr_to_unanalyzed_type pts (UnicodeExpr p v) options parent =
     Inr (pts v ''builtins.unicode'' (fst p) (snd p) True)"
| "expr_to_unanalyzed_type pts (UnaryExpr p opr e) options parent =
     (case expr_to_unanalyzed_type pts e options None of
        Inl err \<Rightarrow> Inl err
      | Inr (RawExpressionType v base q) \<Rightarrow>
          if isinstance_int v \<and> opr = ''-'' then
            Inr (RawExpressionType (times_minus_one v) base q)
          else Inl TypeTranslationError
      | Inr _ \<Rightarrow> Inl TypeTranslationError)"
| "expr_to_unanalyzed_type pts (IntExpr p v) options parent =
     Inr (RawExpressionType (LitInt v) ''builtins.int'' p)"
| "expr_to_unanalyzed_type pts (FloatExpr p) options parent =
     Inr (RawExpressionType LitNone ''builtins.float'' p)"
| "expr_to_unanalyzed_type pts (ComplexExpr p) options parent =
     Inr (RawExpressionType LitNone ''builtins.complex'' p)"
| "expr_to_unanalyzed_type pts (EllipsisExpr p) options parent =
     Inr (EllipsisType (fst p))"
| "expr_to_unanalyzed_type pts _ options parent = Inl TypeTranslationError"
| "translate_items pts [] options parent = Inr []"
| "translate_items pts (e # es) options parent =
     (case expr_to_unanalyzed_type pts e options parent of
        Inl err \<Rightarrow> Inl err
      | Inr t \<Rightarrow>
         (case translate_items pts es options parent of
            Inl err \<Rightarrow> Inl err
          | Inr ts \<Rightarrow> Inr (t # ts)))"
| "callable_args pts i [] arg_names options parent name typ = Inr (name, typ)"
| "callable_args pts i (arg # args) [] options parent name typ = Inl IndexError"
| "callable_args pts i (arg # args) (Some kw # arg_names) options parent name typ =
     (if kw = ''name'' then
        (if name \<noteq> None then Inl TypeTranslationError
         else
           (case extract_argument_name arg of
              Inl err \<Rightarrow> Inl err
            | Inr n \<Rightarrow> callable_args pts (Suc i) args arg_names options parent n typ))
      else if kw = ''type'' then
        (if typ \<noteq> None then Inl TypeTranslationError
         else
           (case expr_to_unanalyzed_type pts arg options parent of
              Inl err \<Rightarrow> Inl err
            | Inr t \<Rightarrow> callable_args pts (Suc i) args arg_names options parent name (Some t)))
      else Inl TypeTranslationError)"
| "callable_args pts i (arg # args) (None # arg_names) options parent name typ =
     (if i = 0 then
        (case expr_to_unanalyzed_type pts arg options parent of
           Inl err \<Rightarrow> Inl err
         | Inr t \<Rightarrow> callable_args pts (Suc i) args arg_names options parent name (Some t))
      else if i = 1 then
        (case extract_argument_name arg of
           Inl err \<Rightarrow> Inl err
         | Inr n \<Rightarrow> callable_args pts (Suc i) args arg_names options parent n typ)
      else Inl TypeTranslationError)"
  by pat_completeness auto
termination
  by (relation "measure (\<lambda>x. case x of
          Inl (_, e, _, _) \<Rightarrow> 2 * size e + 1
        | Inr (Inl (_, es, _, _)) \<Rightarrow> 2 * size_list size es
        | Inr (Inr (_, _, es, _, _, _, _, _)) \<Rightarrow> 2 * size_list size es)")
     (auto dest!: index_args_head simp: index_args_size_list)

text \<open>
  A string parser for closed examples.  It takes no string for a type and returns the
  raw string with its fallback name, as \<^verbatim>\<open>parse_type_string\<close> does for a string
  that is not the text of a type.
\<close>

definition no_type_string :: parse_type_string where
  "no_type_string v base line column u = RawExpressionType (LitStr v) base (line, column)"

section \<open>The pre-build visitor (mypyc/irbuild/prebuildvisitor.py)\<close>

subsection \<open>Statements\<close>

text \<open>
  A \<^verbatim>\<open>FuncDef\<close> has an identity, its \<^verbatim>\<open>arguments\<close> and a body.  A
  \<^verbatim>\<open>Decorator\<close> node has its \<^verbatim>\<open>func\<close>, its \<^verbatim>\<open>var\<close> and the list
  \<^verbatim>\<open>decorators\<close>.  Of the other statement classes, the expression statement, the
  assignment and the return statement are modelled.
\<close>

datatype funcdef =
    FuncDef func_id "argument list" "stmt list"
and stmt =
    FuncDefStmt funcdef
  | Decorator funcdef var_id "expr list"
  | ExpressionStmt expr
  | AssignmentStmt "expr list" expr
  | ReturnStmt "expr option"

fun funcdef_id :: "funcdef \<Rightarrow> func_id" where
  "funcdef_id (FuncDef f _ _) = f"

fun funcdef_arguments :: "funcdef \<Rightarrow> argument list" where
  "funcdef_arguments (FuncDef _ arguments _) = arguments"

subsection \<open>The state of the visitor\<close>

text \<open>
  The attributes that \<^verbatim>\<open>__init__\<close> creates.  A symbol node is named by a
  \<^typ>\<open>node_ref\<close>.  \<^verbatim>\<open>singledispatch_impls\<close> is a \<^verbatim>\<open>defaultdict(list)\<close>: a
  missing key reads as the empty list.
\<close>

record PreBuildVisitor =
  free_variables :: "func_id \<rightharpoonup> node_ref set"
  symbols_to_funcs :: "node_ref \<rightharpoonup> func_id"
  funcs :: "func_id list"
  prop_setters :: "func_id set"
  encapsulating_funcs :: "func_id \<rightharpoonup> func_id list"
  nested_funcs :: "func_id \<rightharpoonup> func_id"
  funcs_to_decorators :: "func_id \<rightharpoonup> expr list"
  singledispatch_impls :: "func_id \<rightharpoonup> (typeinfo_id \<times> func_id) list"

definition init :: PreBuildVisitor where
  "init = \<lparr> free_variables = Map.empty, symbols_to_funcs = Map.empty, funcs = [],
            prop_setters = {}, encapsulating_funcs = Map.empty, nested_funcs = Map.empty,
            funcs_to_decorators = Map.empty, singledispatch_impls = Map.empty \<rparr>"

subsection \<open>Single-dispatch registration decorators\<close>

record RegisteredImpl =
  singledispatch_func :: func_id
  dispatch_type :: typeinfo_id

fun registered_impl_from_possible_register_call ::
    "expr \<Rightarrow> typeinfo_id \<Rightarrow> RegisteredImpl option" where
  "registered_impl_from_possible_register_call
       (MemberExpr _ (NameExpr _ _ _ node) name _ _) dtype =
     (if name = ''register'' then
        (case node of
           DecoratorNode func \<Rightarrow>
             Some \<lparr> singledispatch_func = func, dispatch_type = dtype \<rparr>
         | _ \<Rightarrow> None)
      else None)"
| "registered_impl_from_possible_register_call _ dtype = None"

fun is_MemberExpr :: "expr \<Rightarrow> bool" where
  "is_MemberExpr (MemberExpr _ _ _ _ _) = True"
| "is_MemberExpr _ = False"

fun get_singledispatch_register_call_info :: "expr \<Rightarrow> funcdef \<Rightarrow> RegisteredImpl option" where
  "get_singledispatch_register_call_info (CallExpr _ callee args _) func =
     (case args of
        [arg] \<Rightarrow>
          if is_RefExpr arg then
            (case ref_node arg of
               TypeInfoNode dtype \<Rightarrow>
                 if is_MemberExpr callee then
                   registered_impl_from_possible_register_call callee dtype
                 else None
             | _ \<Rightarrow> None)
          else None
      | _ \<Rightarrow> None)"
| "get_singledispatch_register_call_info (MemberExpr p e name fn nd) func =
     (case funcdef_arguments func of
        [] \<Rightarrow> None
      | Argument _ arg_type _ # _ \<Rightarrow>
          (case arg_type of
             Instance info \<Rightarrow>
               registered_impl_from_possible_register_call (MemberExpr p e name fn nd) info
           | _ \<Rightarrow> None))"
| "get_singledispatch_register_call_info _ func = None"

subsection \<open>Nesting and free variables\<close>

text \<open>
  \<^verbatim>\<open>is_parent\<close> follows the parent links of \<^verbatim>\<open>nested_funcs\<close> by recursion and
  has no bound of its own: \<open>None\<close> is the call that does not return.
\<close>

partial_function (option) is_parent :: "PreBuildVisitor \<Rightarrow> func_id \<Rightarrow> func_id \<Rightarrow> bool option" where
  "is_parent self fitem child =
     (case nested_funcs self child of
        None \<Rightarrow> Some False
      | Some parent \<Rightarrow> if parent = fitem then Some True else is_parent self fitem parent)"

declare is_parent.simps [code]

text \<open>\<^verbatim>\<open>d.setdefault(k, set()).add(v)\<close> and \<^verbatim>\<open>d.setdefault(k, []).append(v)\<close>.\<close>

definition setdefault_add :: "('k \<rightharpoonup> 'v set) \<Rightarrow> 'k \<Rightarrow> 'v \<Rightarrow> ('k \<rightharpoonup> 'v set)" where
  "setdefault_add d k v = d(k \<mapsto> insert v (case d k of None \<Rightarrow> {} | Some s \<Rightarrow> s))"

definition setdefault_append :: "('k \<rightharpoonup> 'v list) \<Rightarrow> 'k \<Rightarrow> 'v \<Rightarrow> ('k \<rightharpoonup> 'v list)" where
  "setdefault_append d k v = d(k \<mapsto> (case d k of None \<Rightarrow> [] | Some s \<Rightarrow> s) @ [v])"

text \<open>
  \<^verbatim>\<open>add_free_variable\<close> reads \<^verbatim>\<open>symbols_to_funcs[symbol]\<close>; on a missing key
  Python raises \<^verbatim>\<open>KeyError\<close>, and the model has no normal return (\<open>None\<close>).
\<close>

definition add_free_variable :: "node_ref \<Rightarrow> PreBuildVisitor \<Rightarrow> PreBuildVisitor option" where
  "add_free_variable symbol self =
     (case symbols_to_funcs self symbol of
        None \<Rightarrow> None
      | Some func \<Rightarrow>
          Some (self\<lparr> free_variables := setdefault_add (free_variables self) func symbol \<rparr>))"

definition visit_symbol_node :: "node_ref \<Rightarrow> PreBuildVisitor \<Rightarrow> PreBuildVisitor option" where
  "visit_symbol_node symbol self =
     (if funcs self = [] then Some self
      else
        (case symbols_to_funcs self symbol of
           Some orig_func \<Rightarrow>
             do {
               inner \<leftarrow> is_parent self (last (funcs self)) orig_func;
               if inner then
                 Some (self\<lparr> symbols_to_funcs := (symbols_to_funcs self)(symbol \<mapsto> last (funcs self)),
                             free_variables :=
                               setdefault_add (free_variables self) (last (funcs self)) symbol \<rparr>)
               else do {
                 outer \<leftarrow> is_parent self orig_func (last (funcs self));
                 if outer then add_free_variable symbol self else Some self
               }
             }
         | None \<Rightarrow>
             Some (self\<lparr> symbols_to_funcs :=
                            (symbols_to_funcs self)(symbol \<mapsto> last (funcs self)) \<rparr>)))"

definition visit_var :: "var_id \<Rightarrow> PreBuildVisitor \<Rightarrow> PreBuildVisitor option" where
  "visit_var var self = visit_symbol_node (VarNode var) self"

fun visit_name_expr :: "node_ref \<Rightarrow> PreBuildVisitor \<Rightarrow> PreBuildVisitor option" where
  "visit_name_expr (VarNode v) self = visit_symbol_node (VarNode v) self"
| "visit_name_expr (FuncDefNode f) self = visit_symbol_node (FuncDefNode f) self"
| "visit_name_expr _ self = Some self"

text \<open>
  \<^verbatim>\<open>visit_func\<close> up to and including \<^verbatim>\<open>self.funcs.append(func)\<close>, and its last
  statement \<^verbatim>\<open>self.funcs.pop()\<close>.
\<close>

definition visit_func_enter :: "func_id \<Rightarrow> PreBuildVisitor \<Rightarrow> PreBuildVisitor" where
  "visit_func_enter func self =
     (let self1 =
            (if funcs self \<noteq> [] then
               self\<lparr> encapsulating_funcs :=
                        setdefault_append (encapsulating_funcs self) (last (funcs self)) func,
                     nested_funcs := (nested_funcs self)(func \<mapsto> last (funcs self)) \<rparr>
             else self)
      in self1\<lparr> funcs := funcs self1 @ [func] \<rparr>)"

definition visit_func_leave :: "PreBuildVisitor \<Rightarrow> PreBuildVisitor" where
  "visit_func_leave self = self\<lparr> funcs := butlast (funcs self) \<rparr>"

subsection \<open>The traversal\<close>

text \<open>
  Modelled from the spec: the base class \<^verbatim>\<open>TraverserVisitor\<close> of
  \<^verbatim>\<open>mypy.traverser\<close> is not among the sources.  The spec says that the pass visits
  the nodes in their natural nesting order, a nested function's body inline and
  depth-first after its header is registered.  The base visit of a function item
  visits the initializers of its arguments, then the variables of its arguments, then
  its body; the base visit of a \<^verbatim>\<open>Decorator\<close> visits its \<^verbatim>\<open>func\<close>, its
  \<^verbatim>\<open>var\<close> and then its decorators; every other node has its children visited in
  order.  The methods that \<^verbatim>\<open>PreBuildVisitor\<close> overrides are those of the source.
\<close>

fun visit_vars :: "argument list \<Rightarrow> PreBuildVisitor \<Rightarrow> PreBuildVisitor option" where
  "visit_vars [] self = Some self"
| "visit_vars (Argument v _ _ # arguments) self =
     do { self1 \<leftarrow> visit_var v self; visit_vars arguments self1 }"

fun visit_expr :: "expr \<Rightarrow> PreBuildVisitor \<Rightarrow> PreBuildVisitor option"
and visit_exprs :: "expr list \<Rightarrow> PreBuildVisitor \<Rightarrow> PreBuildVisitor option"
and visit_initializers :: "argument list \<Rightarrow> PreBuildVisitor \<Rightarrow> PreBuildVisitor option"
where
  "visit_expr (NameExpr p name fn nd) self = visit_name_expr nd self"
| "visit_expr (MemberExpr p e name fn nd) self = visit_expr e self"
| "visit_expr (IndexExpr p b i) self =
     do { self1 \<leftarrow> visit_expr b self; visit_expr i self1 }"
| "visit_expr (TupleExpr p items) self = visit_exprs items self"
| "visit_expr (ListExpr p items) self = visit_exprs items self"
| "visit_expr (CallExpr p callee args arg_names) self =
     do { self1 \<leftarrow> visit_exprs args self; visit_expr callee self1 }"
| "visit_expr (OpExpr p opr l r) self =
     do { self1 \<leftarrow> visit_expr l self; visit_expr r self1 }"
| "visit_expr (UnaryExpr p opr e) self = visit_expr e self"
| "visit_expr (IntExpr p v) self = Some self"
| "visit_expr (FloatExpr p) self = Some self"
| "visit_expr (ComplexExpr p) self = Some self"
| "visit_expr (StrExpr p v u) self = Some self"
| "visit_expr (BytesExpr p v) self = Some self"
| "visit_expr (UnicodeExpr p v) self = Some self"
| "visit_expr (EllipsisExpr p) self = Some self"
| "visit_expr (LambdaExpr p func arguments body) self =
     do {
       self1 \<leftarrow> visit_initializers arguments (visit_func_enter func self);
       self2 \<leftarrow> visit_vars arguments self1;
       self3 \<leftarrow> visit_expr body self2;
       Some (visit_func_leave self3)
     }"
| "visit_exprs [] self = Some self"
| "visit_exprs (e # es) self =
     do { self1 \<leftarrow> visit_expr e self; visit_exprs es self1 }"
| "visit_initializers [] self = Some self"
| "visit_initializers (Argument v t None # arguments) self =
     visit_initializers arguments self"
| "visit_initializers (Argument v t (Some initializer) # arguments) self =
     do { self1 \<leftarrow> visit_expr initializer self; visit_initializers arguments self1 }"

text \<open>
  The loop of \<^verbatim>\<open>visit_decorator\<close> over \<^verbatim>\<open>enumerate(dec.decorators)\<close>, with the
  visitor and the list \<^verbatim>\<open>removed\<close> of indices as its state.
\<close>

fun register_loop ::
    "funcdef \<Rightarrow> nat \<Rightarrow> expr list \<Rightarrow> PreBuildVisitor \<times> nat list \<Rightarrow> PreBuildVisitor \<times> nat list" where
  "register_loop func i [] (self, removed) = (self, removed)"
| "register_loop func i (d # ds) (self, removed) =
     (case get_singledispatch_register_call_info d func of
        None \<Rightarrow> register_loop func (Suc i) ds (self, removed)
      | Some impl \<Rightarrow>
          register_loop func (Suc i) ds
            (self\<lparr> singledispatch_impls :=
                     setdefault_append (singledispatch_impls self) (singledispatch_func impl)
                       (dispatch_type impl, funcdef_id func) \<rparr>,
             removed @ [i]))"

text \<open>
  \<^verbatim>\<open>del xs[i]\<close> for an index in range, and the loop
  \<^verbatim>\<open>for i in reversed(removed): del dec.decorators[i]\<close>.  The indices of
  \<^verbatim>\<open>removed\<close> are indices of the list, so no \<^verbatim>\<open>del\<close> is out of range.
\<close>

definition del_at :: "nat \<Rightarrow> 'a list \<Rightarrow> 'a list" where
  "del_at i xs = take i xs @ drop (Suc i) xs"

definition del_reversed :: "nat list \<Rightarrow> 'a list \<Rightarrow> 'a list" where
  "del_reversed removed xs = fold del_at (rev removed) xs"

fun is_setter :: "expr \<Rightarrow> bool" where
  "is_setter (MemberExpr _ _ name _ _) = (name = ''setter'')"
| "is_setter _ = False"

text \<open>
  \<^verbatim>\<open>visit_decorator\<close> up to the call of \<^verbatim>\<open>super().visit_decorator(dec)\<close>.  The
  result says whether that call is reached (\<open>False\<close> is the early \<^verbatim>\<open>return\<close>),
  and gives the list \<^verbatim>\<open>dec.decorators\<close> and the visitor as they are then: the
  \<^verbatim>\<open>del\<close> statements change the list of the \<^verbatim>\<open>Decorator\<close> node itself.
\<close>

definition visit_decorator_own ::
    "funcdef \<Rightarrow> expr list \<Rightarrow> PreBuildVisitor \<Rightarrow> bool \<times> expr list \<times> PreBuildVisitor" where
  "visit_decorator_own func decorators self =
     (if decorators \<noteq> [] then
        (if is_setter (hd decorators) then
           (True, decorators, self\<lparr> prop_setters := insert (funcdef_id func) (prop_setters self) \<rparr>)
         else
           (case register_loop func 0 decorators (self, []) of
              (self1, removed) \<Rightarrow>
                (let decorators1 = del_reversed removed decorators in
                 if decorators1 = [] then (False, decorators1, self1)
                 else (True, decorators1,
                       self1\<lparr> funcs_to_decorators :=
                                (funcs_to_decorators self1)(funcdef_id func \<mapsto> decorators1) \<rparr>))))
      else (True, decorators, self))"

text \<open>
  The visit of statements.  Each function returns, with the visitor, the node as the
  pass leaves it, since \<^verbatim>\<open>visit_decorator\<close> changes \<^verbatim>\<open>dec.decorators\<close> in place.
\<close>

fun visit_func_def :: "funcdef \<Rightarrow> PreBuildVisitor \<Rightarrow> (funcdef \<times> PreBuildVisitor) option"
and visit_stmt :: "stmt \<Rightarrow> PreBuildVisitor \<Rightarrow> (stmt \<times> PreBuildVisitor) option"
and visit_block :: "stmt list \<Rightarrow> PreBuildVisitor \<Rightarrow> (stmt list \<times> PreBuildVisitor) option"
where
  "visit_func_def (FuncDef func arguments body) self =
     do {
       self1 \<leftarrow> visit_initializers arguments (visit_func_enter func self);
       self2 \<leftarrow> visit_vars arguments self1;
       (body1, self3) \<leftarrow> visit_block body self2;
       Some (FuncDef func arguments body1, visit_func_leave self3)
     }"
| "visit_stmt (FuncDefStmt fdef) self =
     do { (fdef1, self1) \<leftarrow> visit_func_def fdef self; Some (FuncDefStmt fdef1, self1) }"
| "visit_stmt (Decorator func var decorators) self =
     (case visit_decorator_own func decorators self of
        (proceed, decorators1, self1) \<Rightarrow>
          if proceed then
            do {
              (func1, self2) \<leftarrow> visit_func_def func self1;
              self3 \<leftarrow> visit_var var self2;
              self4 \<leftarrow> visit_exprs decorators1 self3;
              Some (Decorator func1 var decorators1, self4)
            }
          else Some (Decorator func var decorators1, self1))"
| "visit_stmt (ExpressionStmt e) self =
     do { self1 \<leftarrow> visit_expr e self; Some (ExpressionStmt e, self1) }"
| "visit_stmt (AssignmentStmt lvalues rvalue) self =
     do {
       self1 \<leftarrow> visit_expr rvalue self;
       self2 \<leftarrow> visit_exprs lvalues self1;
       Some (AssignmentStmt lvalues rvalue, self2)
     }"
| "visit_stmt (ReturnStmt None) self = Some (ReturnStmt None, self)"
| "visit_stmt (ReturnStmt (Some e)) self =
     do { self1 \<leftarrow> visit_expr e self; Some (ReturnStmt (Some e), self1) }"
| "visit_block [] self = Some ([], self)"
| "visit_block (s # ss) self =
     do {
       (s1, self1) \<leftarrow> visit_stmt s self;
       (ss1, self2) \<leftarrow> visit_block ss self1;
       Some (s1 # ss1, self2)
     }"

text \<open>
  Modelled from the spec: the driver that runs the pass is not among the sources.  The
  spec's \<^verbatim>\<open>analyze(source_unit)\<close> creates the visitor and visits the definitions of
  the source unit.
\<close>

definition analyze :: "stmt list \<Rightarrow> (stmt list \<times> PreBuildVisitor) option" where
  "analyze defs = visit_block defs init"

subsection \<open>Notions used by the properties\<close>

text \<open>One registration recorded: \<^verbatim>\<open>singledispatch_impls[f].append((dispatch_type, func))\<close>.\<close>

definition record_impl ::
    "func_id \<Rightarrow> (func_id \<rightharpoonup> (typeinfo_id \<times> func_id) list) \<Rightarrow> RegisteredImpl
       \<Rightarrow> (func_id \<rightharpoonup> (typeinfo_id \<times> func_id) list)" where
  "record_impl func m impl =
     setdefault_append m (singledispatch_func impl) (dispatch_type impl, func)"

text \<open>
  The function items (\<^verbatim>\<open>FuncDef\<close> and \<^verbatim>\<open>LambdaExpr\<close> objects) below a node, by
  their identities.  In a tree of Python objects every node is an object of its own, so
  the list of a source unit has no identity twice.
\<close>

fun expr_funcs :: "expr \<Rightarrow> func_id list"
and exprs_funcs :: "expr list \<Rightarrow> func_id list"
and arguments_funcs :: "argument list \<Rightarrow> func_id list"
where
  "expr_funcs (NameExpr p name fn nd) = []"
| "expr_funcs (MemberExpr p e name fn nd) = expr_funcs e"
| "expr_funcs (IndexExpr p b i) = expr_funcs b @ expr_funcs i"
| "expr_funcs (TupleExpr p items) = exprs_funcs items"
| "expr_funcs (ListExpr p items) = exprs_funcs items"
| "expr_funcs (CallExpr p callee args arg_names) = exprs_funcs args @ expr_funcs callee"
| "expr_funcs (OpExpr p opr l r) = expr_funcs l @ expr_funcs r"
| "expr_funcs (UnaryExpr p opr e) = expr_funcs e"
| "expr_funcs (IntExpr p v) = []"
| "expr_funcs (FloatExpr p) = []"
| "expr_funcs (ComplexExpr p) = []"
| "expr_funcs (StrExpr p v u) = []"
| "expr_funcs (BytesExpr p v) = []"
| "expr_funcs (UnicodeExpr p v) = []"
| "expr_funcs (EllipsisExpr p) = []"
| "expr_funcs (LambdaExpr p func arguments body) =
     func # arguments_funcs arguments @ expr_funcs body"
| "exprs_funcs [] = []"
| "exprs_funcs (e # es) = expr_funcs e @ exprs_funcs es"
| "arguments_funcs [] = []"
| "arguments_funcs (Argument v t None # arguments) = arguments_funcs arguments"
| "arguments_funcs (Argument v t (Some initializer) # arguments) =
     expr_funcs initializer @ arguments_funcs arguments"

fun funcdef_funcs :: "funcdef \<Rightarrow> func_id list"
and stmt_funcs :: "stmt \<Rightarrow> func_id list"
and block_funcs :: "stmt list \<Rightarrow> func_id list"
where
  "funcdef_funcs (FuncDef func arguments body) =
     func # arguments_funcs arguments @ block_funcs body"
| "stmt_funcs (FuncDefStmt fdef) = funcdef_funcs fdef"
| "stmt_funcs (Decorator func var decorators) = funcdef_funcs func @ exprs_funcs decorators"
| "stmt_funcs (ExpressionStmt e) = expr_funcs e"
| "stmt_funcs (AssignmentStmt lvalues rvalue) = expr_funcs rvalue @ exprs_funcs lvalues"
| "stmt_funcs (ReturnStmt None) = []"
| "stmt_funcs (ReturnStmt (Some e)) = expr_funcs e"
| "block_funcs [] = []"
| "block_funcs (s # ss) = stmt_funcs s @ block_funcs ss"

text \<open>
  The parent links of \<^verbatim>\<open>nested_funcs\<close> as a relation, from the parent to the child;
  the links are acyclic when the relation is well-founded.  The function items that a
  visitor knows are those in \<^verbatim>\<open>nested_funcs\<close> (as a child or as a parent) and
  those on the stack.
\<close>

definition parent_rel :: "PreBuildVisitor \<Rightarrow> (func_id \<times> func_id) set" where
  "parent_rel self = {(parent, child). nested_funcs self child = Some parent}"

definition known :: "PreBuildVisitor \<Rightarrow> func_id set" where
  "known self = dom (nested_funcs self) \<union> ran (nested_funcs self) \<union> set (funcs self)"

text \<open>
  The condition under which a node is visited: the parent links are acyclic, and the
  function items of the node are distinct and not known yet.  The result of a visit
  that keeps it: the visit returns, the links are acyclic again, the stack is as
  before, and only function items of the node have become known.
\<close>

definition fresh :: "func_id list \<Rightarrow> PreBuildVisitor \<Rightarrow> bool" where
  "fresh ids self \<longleftrightarrow> wf (parent_rel self) \<and> distinct ids \<and> set ids \<inter> known self = {}"

definition returns :: "func_id list \<Rightarrow> PreBuildVisitor \<Rightarrow> PreBuildVisitor option \<Rightarrow> bool" where
  "returns ids self r \<longleftrightarrow>
     (\<exists>self1. r = Some self1 \<and> wf (parent_rel self1) \<and> funcs self1 = funcs self
              \<and> known self1 \<subseteq> known self \<union> set ids)"

text \<open>
  The tree that the pass leaves, written without the visitor.  A \<^verbatim>\<open>Decorator\<close>
  node whose list is not empty and not headed by a setter loses the decorators that are
  recognized as registrations; when all are, the pass does not go into the function.
  Nothing else changes.
\<close>

fun strip_func_def :: "funcdef \<Rightarrow> funcdef"
and strip_stmt :: "stmt \<Rightarrow> stmt"
and strip_block :: "stmt list \<Rightarrow> stmt list"
where
  "strip_func_def (FuncDef func arguments body) = FuncDef func arguments (strip_block body)"
| "strip_stmt (FuncDefStmt fdef) = FuncDefStmt (strip_func_def fdef)"
| "strip_stmt (Decorator func var decorators) =
     (if decorators \<noteq> [] \<and> \<not> is_setter (hd decorators) then
        (if \<forall>d \<in> set decorators. get_singledispatch_register_call_info d func \<noteq> None then
           Decorator func var []
         else
           Decorator (strip_func_def func) var
             (filter (\<lambda>d. get_singledispatch_register_call_info d func = None) decorators))
      else Decorator (strip_func_def func) var decorators)"
| "strip_stmt (ExpressionStmt e) = ExpressionStmt e"
| "strip_stmt (AssignmentStmt lvalues rvalue) = AssignmentStmt lvalues rvalue"
| "strip_stmt (ReturnStmt e) = ReturnStmt e"
| "strip_block [] = []"
| "strip_block (s # ss) = strip_stmt s # strip_block ss"

text \<open>
  Nodes for closed examples: the decorator \<^verbatim>\<open>@f.register(int)\<close>, where \<^verbatim>\<open>f\<close> is
  bound to the \<^verbatim>\<open>Decorator\<close> node of the dispatcher 7 and \<^verbatim>\<open>int\<close> to the
  \<^verbatim>\<open>TypeInfo\<close> 3, and an ordinary decorator \<^verbatim>\<open>@d1\<close>.
\<close>

definition register_int :: expr where
  "register_int =
     CallExpr (1, 1)
       (MemberExpr (1, 1) (NameExpr (1, 1) ''f'' None (DecoratorNode 7)) ''register'' None NoNode)
       [NameExpr (1, 12) ''int'' None (TypeInfoNode 3)] [None]"

definition plain_d1 :: expr where
  "plain_d1 = NameExpr (1, 1) ''d1'' None NoNode"





text \<open>
  The calls that the pass makes of its own methods on a node, in the order of the
  traversal: \<open>Symbol s\<close> is a call \<^verbatim>\<open>visit_symbol_node(s)\<close>, \<open>Func f body\<close> is a call
  \<^verbatim>\<open>visit_func(f)\<close> with the calls made between the push and the pop of \<open>f\<close>, and
  \<open>Dec func ds\<close> is the part of \<^verbatim>\<open>visit_decorator\<close> before the base visit.  A
  function is entered by the pass when it has a \<open>Func\<close> of its own: a \<^verbatim>\<open>FuncDef\<close> or
  \<^verbatim>\<open>LambdaExpr\<close> that is not below a \<^verbatim>\<open>Decorator\<close> node at which
  \<^verbatim>\<open>visit_decorator\<close> returns early.
\<close>

datatype event =
    Symbol node_ref
  | Func func_id "event list"
  | Dec funcdef "expr list"




text \<open>
  What a list of calls says of the source: the symbols sighted in it, at any depth
  (\<open>sighted\<close>) and outside every function that is entered in it (\<open>sighted_here\<close>);
  the functions entered in it, at any depth (\<open>entered\<close>) and outside every other
  function entered in it (\<open>entered_here\<close>, each with the symbols sighted in it at any
  depth).  \<open>scopes\<close> lists every function that the pass enters with the symbols
  sighted at its own level and the functions entered at its own level.
  \<open>sighted_before outer\<close> lists the symbols sighted before the pass enters
  \<open>outer\<close>.
\<close>

fun sighted :: "event list \<Rightarrow> node_ref list" where
  "sighted [] = []"
| "sighted (Symbol s # evs) = s # sighted evs"
| "sighted (Func func body # evs) = sighted body @ sighted evs"
| "sighted (Dec func decorators # evs) = sighted evs"

fun sighted_here :: "event list \<Rightarrow> node_ref list" where
  "sighted_here [] = []"
| "sighted_here (Symbol s # evs) = s # sighted_here evs"
| "sighted_here (Func func body # evs) = sighted_here evs"
| "sighted_here (Dec func decorators # evs) = sighted_here evs"

fun entered :: "event list \<Rightarrow> func_id list" where
  "entered [] = []"
| "entered (Symbol s # evs) = entered evs"
| "entered (Func func body # evs) = func # entered body @ entered evs"
| "entered (Dec func decorators # evs) = entered evs"

fun entered_here :: "event list \<Rightarrow> (func_id \<times> node_ref list) list" where
  "entered_here [] = []"
| "entered_here (Symbol s # evs) = entered_here evs"
| "entered_here (Func func body # evs) = (func, sighted body) # entered_here evs"
| "entered_here (Dec func decorators # evs) = entered_here evs"

fun scopes ::
    "event list \<Rightarrow> (func_id \<times> node_ref list \<times> (func_id \<times> node_ref list) list) list" where
  "scopes [] = []"
| "scopes (Symbol s # evs) = scopes evs"
| "scopes (Func func body # evs) =
     (func, sighted_here body, entered_here body) # scopes body @ scopes evs"
| "scopes (Dec func decorators # evs) = scopes evs"

fun sighted_before :: "func_id \<Rightarrow> event list \<Rightarrow> node_ref list" where
  "sighted_before outer [] = []"
| "sighted_before outer (Symbol s # evs) = s # sighted_before outer evs"
| "sighted_before outer (Func func body # evs) =
     (if func = outer then []
      else if outer \<in> set (entered body) then sighted_before outer body
      else sighted body @ sighted_before outer evs)"
| "sighted_before outer (Dec func decorators # evs) = sighted_before outer evs"









section \<open>Properties of the translator\<close>


text \<open>
  Claim C2.  The claim says that indexing an expression that translates to an already
  subscripted \<^verbatim>\<open>UnboundType\<close> raises, also when the first subscript was the empty
  tuple.  The guard of the code is \<^verbatim>\<open>if base.args\<close>, and the arguments of
  \<^verbatim>\<open>A[()]\<close> are empty: \<^verbatim>\<open>A[()][str]\<close> is translated, to a type named
  \<^verbatim>\<open>A\<close> with the argument \<^verbatim>\<open>str\<close> whose flag \<^verbatim>\<open>empty_tuple_index\<close> is
  still set.
\<close>

theorem resubscript_after_empty_tuple:
  "expr_to_unanalyzed_type pts
     (IndexExpr p (IndexExpr q (NameExpr r ''A'' None nd) (TupleExpr s []))
                  (NameExpr t ''str'' None nd'))
     options parent
   = Inr (UnboundType ''A'' [UnboundType ''str'' [] False t] True r)"
  by (simp add: is_annotated_def)

text \<open>
  The part of C2 that the code keeps: a base that translates to an
  \<^verbatim>\<open>UnboundType\<close> with arguments cannot be indexed, as in \<^verbatim>\<open>A[int][str]\<close>.
\<close>

lemma resubscript_with_args_fails:
  assumes "expr_to_unanalyzed_type pts b options (Some (IndexExpr p b i))
             = Inr (UnboundType name args eti q)"
    and "args \<noteq> []"
  shows "expr_to_unanalyzed_type pts (IndexExpr p b i) options parent = Inl TypeTranslationError"
  using assms by simp

lemma resubscript_example:
  "expr_to_unanalyzed_type pts
     (IndexExpr p (IndexExpr q (NameExpr r ''A'' None nd) (NameExpr s ''int'' None nd'))
                  (NameExpr t ''str'' None nd''))
     options parent
   = Inl TypeTranslationError"
  by (simp add: is_annotated_def)

text \<open>
  Claim C3, as stated, at the operands \<^verbatim>\<open>()\<close> and \<^verbatim>\<open>str\<close> under version
  3.10: the translation of \<^verbatim>\<open>() | str\<close> fails, since a tuple alone is no type.
\<close>

theorem union_operands_counterexample:
  "expr_to_unanalyzed_type no_type_string
     (OpExpr (1, 0) ''|'' (TupleExpr (1, 0) []) (NameExpr (1, 5) ''str'' None NoNode))
     (Some \<lparr> python_version = (3, 10) \<rparr>) None
   = Inl TypeTranslationError"
  by (simp add: version_ge_3_10_def)

text \<open>
  Claim C3, amended.  With options whose version is at least \<^verbatim>\<open>(3, 10)\<close>, the
  translation of \<^verbatim>\<open>l | r\<close> translates \<^verbatim>\<open>l\<close> and then \<^verbatim>\<open>r\<close> (both without
  a parent); it fails as the first of them that fails, and is the union of the two
  translations otherwise.  With options of an earlier version, or without options, it
  fails with \<^verbatim>\<open>TypeTranslationError\<close>.
\<close>

theorem union_syntax_version_gated:
  "(version_ge_3_10 (python_version opt) \<longrightarrow>
      expr_to_unanalyzed_type pts (OpExpr p ''|'' l r) (Some opt) parent =
        (case expr_to_unanalyzed_type pts l (Some opt) None of
           Inl err \<Rightarrow> Inl err
         | Inr lt \<Rightarrow>
            (case expr_to_unanalyzed_type pts r (Some opt) None of
               Inl err \<Rightarrow> Inl err
             | Inr rt \<Rightarrow> Inr (UnionType [lt, rt]))))
   \<and> (\<not> version_ge_3_10 (python_version opt) \<longrightarrow>
      expr_to_unanalyzed_type pts (OpExpr p ''|'' l r) (Some opt) parent = Inl TypeTranslationError)
   \<and> expr_to_unanalyzed_type pts (OpExpr p ''|'' l r) None parent = Inl TypeTranslationError
   \<and> (version_ge_3_10 v \<longleftrightarrow> (3 < fst v \<or> (fst v = 3 \<and> 10 \<le> snd v)))"
  by (simp add: version_ge_3_10_def)

theorem union_syntax_version_gated_witness:
  "expr_to_unanalyzed_type no_type_string
     (OpExpr (1, 0) ''|'' (NameExpr (1, 0) ''int'' None NoNode) (NameExpr (1, 6) ''str'' None NoNode))
     (Some \<lparr> python_version = (3, 10) \<rparr>) None
    = Inr (UnionType [UnboundType ''int'' [] False (1, 0), UnboundType ''str'' [] False (1, 6)])
   \<and> expr_to_unanalyzed_type no_type_string
     (OpExpr (1, 0) ''|'' (NameExpr (1, 0) ''int'' None NoNode) (NameExpr (1, 6) ''str'' None NoNode))
     (Some \<lparr> python_version = (3, 9) \<rparr>) None
    = Inl TypeTranslationError
   \<and> expr_to_unanalyzed_type no_type_string
     (OpExpr (1, 0) ''|'' (NameExpr (1, 0) ''int'' None NoNode) (NameExpr (1, 6) ''str'' None NoNode))
     None None
    = Inl TypeTranslationError"
  using union_syntax_version_gated [of "\<lparr> python_version = (3, 10) \<rparr>" no_type_string "(1, 0)"
      "NameExpr (1, 0) ''int'' None NoNode" "NameExpr (1, 6) ''str'' None NoNode" None]
    union_syntax_version_gated [of "\<lparr> python_version = (3, 9) \<rparr>" no_type_string "(1, 0)"
      "NameExpr (1, 0) ''int'' None NoNode" "NameExpr (1, 6) ''str'' None NoNode" None]
  by (simp add: version_ge_3_10_def)





text \<open>
  Claim C5, as stated, at the doubly negated literal \<^verbatim>\<open>--5\<close>: it does not raise,
  it is translated to the literal \<^verbatim>\<open>5\<close>.
\<close>

theorem double_negation_counterexample:
  "expr_to_unanalyzed_type no_type_string
     (UnaryExpr (1, 0) ''-'' (UnaryExpr (1, 1) ''-'' (IntExpr (1, 2) 5))) None None
   = Inr (RawExpressionType (LitInt 5) ''builtins.int'' (1, 2))"
  by simp

text \<open>
  Claim C5, amended.  The translation of a unary expression translates the operand
  (without a parent) and looks at the result, not at the syntax of the operand.  If the
  operator is \<^verbatim>\<open>-\<close> and the operand translates to a \<^verbatim>\<open>RawExpressionType\<close> with
  the int literal \<open>v\<close>, the result is that type with the literal \<open>- v\<close>; so
  \<^verbatim>\<open>-IntLiteral(v)\<close> gives the literal \<open>- v\<close> of \<^verbatim>\<open>builtins.int\<close>.  If the
  operand fails, the unary expression fails in the same way.  If the operator is not
  \<^verbatim>\<open>-\<close>, or the operand translates to something that is not a
  \<^verbatim>\<open>RawExpressionType\<close> whose literal is an instance of \<^verbatim>\<open>int\<close>, the result is
  \<^verbatim>\<open>TypeTranslationError\<close>.
\<close>

theorem unary_minus_int:
  "(expr_to_unanalyzed_type pts e options None = Inr (RawExpressionType (LitInt v) base q) \<longrightarrow>
      expr_to_unanalyzed_type pts (UnaryExpr p ''-'' e) options parent
        = Inr (RawExpressionType (LitInt (- v)) base q))
   \<and> expr_to_unanalyzed_type pts (UnaryExpr p ''-'' (IntExpr q v)) options parent
        = Inr (RawExpressionType (LitInt (- v)) ''builtins.int'' q)
   \<and> (expr_to_unanalyzed_type pts e options None = Inl err \<longrightarrow>
      expr_to_unanalyzed_type pts (UnaryExpr p opr e) options parent = Inl err)
   \<and> (expr_to_unanalyzed_type pts e options None = Inr t \<and>
       (opr \<noteq> ''-'' \<or> (\<forall>lv base' q'. t = RawExpressionType lv base' q' \<longrightarrow> \<not> isinstance_int lv)) \<longrightarrow>
      expr_to_unanalyzed_type pts (UnaryExpr p opr e) options parent = Inl TypeTranslationError)"
  by (cases t) auto

theorem unary_minus_int_witness:
  "expr_to_unanalyzed_type no_type_string (UnaryExpr (1, 0) ''-'' (IntExpr (1, 1) 5)) None None
     = Inr (RawExpressionType (LitInt (- 5)) ''builtins.int'' (1, 1))
   \<and> expr_to_unanalyzed_type no_type_string (UnaryExpr (1, 0) ''-'' (FloatExpr (1, 1))) None None
     = Inl TypeTranslationError
   \<and> expr_to_unanalyzed_type no_type_string (UnaryExpr (1, 0) ''+'' (IntExpr (1, 1) 5)) None None
     = Inl TypeTranslationError
   \<and> expr_to_unanalyzed_type no_type_string
        (UnaryExpr (1, 0) ''-'' (TupleExpr (1, 1) [])) None None
     = Inl TypeTranslationError"
  using unary_minus_int [of no_type_string "IntExpr (1, 1) 5" None 5 "''builtins.int''" "(1, 1)"
      "(1, 0)" None TypeTranslationError "''+''" "RawExpressionType (LitInt 5) ''builtins.int'' (1, 1)"]
    unary_minus_int [of no_type_string "FloatExpr (1, 1)" None 5 "''builtins.int''" "(1, 1)"
      "(1, 0)" None TypeTranslationError "''-''" "RawExpressionType LitNone ''builtins.float'' (1, 1)"]
    unary_minus_int [of no_type_string "TupleExpr (1, 1) []" None 5 "''builtins.int''" "(1, 1)"
      "(1, 0)" None TypeTranslationError "''-''" "AnyType unannotated"]
  by simp

text \<open>
  Claim C6.  The claim says that a name supplied twice raises, in any combination of
  keyword and position.  The code asks \<^verbatim>\<open>name is not None\<close> to see whether a name
  was supplied, and \<^verbatim>\<open>None\<close> is also the name that the literal \<^verbatim>\<open>None\<close>
  supplies: in a list, \<^verbatim>\<open>Arg(int, None, name="y")\<close> supplies the name at position
  1 and by keyword, and is translated to the argument named \<^verbatim>\<open>y\<close>.
\<close>

theorem callable_argument_two_names:
  "expr_to_unanalyzed_type pts
     (ListExpr p [CallExpr q (NameExpr r ''Arg'' fn nd)
                    [NameExpr a ''int'' fa na, NameExpr b ''None'' fb nb, StrExpr c ''y'' u]
                    [None, None, Some ''name'']])
     options parent
   = Inr (TypeList [CallableArgument (UnboundType ''int'' [] False a) (Some ''y'') ''Arg'' q] p)"
  by simp

text \<open>
  The parts of C6 that the code keeps, as steps of the loop over the arguments: a
  keyword \<^verbatim>\<open>type\<close> after a type was supplied, a keyword \<^verbatim>\<open>name\<close> after a name
  other than \<^verbatim>\<open>None\<close> was supplied, and a positional argument at index 2 or later
  all raise.
\<close>

lemma callable_args_second_supply:
  "typ \<noteq> None \<Longrightarrow>
     callable_args pts i (arg # args) (Some ''type'' # arg_names) options parent name typ
       = Inl TypeTranslationError"
  "name \<noteq> None \<Longrightarrow>
     callable_args pts i (arg # args) (Some ''name'' # arg_names) options parent name typ
       = Inl TypeTranslationError"
  "2 \<le> i \<Longrightarrow>
     callable_args pts i (arg # args) (None # arg_names) options parent name typ
       = Inl TypeTranslationError"
  by auto

section \<open>Properties of the pre-build visitor\<close>

subsection \<open>The decorators of a function\<close>

text \<open>
  Deleting at the indices of \<^verbatim>\<open>removed\<close>, from the last to the first, is filtering.
\<close>

lemma del_at_simps [simp]:
  "del_at 0 (x # xs) = xs"
  "del_at (Suc k) (x # xs) = x # del_at k xs"
  by (simp_all add: del_at_def)

lemma fold_del_at_Suc:
  "fold del_at (map Suc ks) (x # xs) = x # fold del_at ks xs"
  by (induction ks arbitrary: xs) simp_all

lemma fold_del_at_rev_Suc:
  "fold del_at (rev (map Suc ks)) (x # xs) = x # fold del_at (rev ks) xs"
  by (simp add: rev_map fold_del_at_Suc)

lemma upt_indices_Cons:
  "filter Q [0..<Suc n] = (if Q 0 then [0] else []) @ map Suc (filter (Q \<circ> Suc) [0..<n])"
  by (simp add: upt_conv_Cons map_Suc_upt [symmetric] filter_map del: upt_Suc)

lemma del_reversed_filter:
  "del_reversed (filter (\<lambda>k. P (ds ! k)) [0..<length ds]) ds = filter (\<lambda>d. \<not> P d) ds"
proof (induction ds)
  case Nil
  show ?case by (simp add: del_reversed_def)
next
  case (Cons d ds)
  have idx: "filter (\<lambda>k. P ((d # ds) ! k)) [0..<length (d # ds)]
      = (if P d then [0] else []) @ map Suc (filter (\<lambda>k. P (ds ! k)) [0..<length ds])"
    using upt_indices_Cons [of "\<lambda>k. P ((d # ds) ! k)" "length ds"] by (simp add: comp_def)
  show ?case
    unfolding del_reversed_def idx
    using Cons.IH by (simp add: del_reversed_def fold_del_at_rev_Suc)
qed

lemma register_loop_removed:
  "snd (register_loop func i ds (self, removed))
     = removed @ map (\<lambda>k. i + k)
         (filter (\<lambda>k. get_singledispatch_register_call_info (ds ! k) func \<noteq> None) [0..<length ds])"
proof (induction ds arbitrary: i self removed)
  case Nil
  show ?case by simp
next
  case (Cons d ds)
  have idx: "filter (\<lambda>k. get_singledispatch_register_call_info ((d # ds) ! k) func \<noteq> None)
               [0..<length (d # ds)]
      = (if get_singledispatch_register_call_info d func \<noteq> None then [0] else [])
        @ map Suc (filter (\<lambda>k. get_singledispatch_register_call_info (ds ! k) func \<noteq> None)
                     [0..<length ds])"
    using upt_indices_Cons
      [of "\<lambda>k. get_singledispatch_register_call_info ((d # ds) ! k) func \<noteq> None" "length ds"]
    by (simp add: comp_def)
  show ?case
    unfolding idx by (cases "get_singledispatch_register_call_info d func") (simp_all add: Cons.IH)
qed

lemma register_loop_self:
  "fst (register_loop func i ds (self, removed))
     = self\<lparr> singledispatch_impls :=
          foldl (record_impl (funcdef_id func)) (singledispatch_impls self)
            (List.map_filter (\<lambda>d. get_singledispatch_register_call_info d func) ds) \<rparr>"
proof (induction ds arbitrary: i self removed)
  case Nil
  show ?case by (simp add: List.map_filter_simps)
next
  case (Cons d ds)
  show ?case
    by (cases "get_singledispatch_register_call_info d func")
       (simp_all add: Cons.IH List.map_filter_simps record_impl_def)
qed

text \<open>
  What \<^verbatim>\<open>visit_decorator\<close> does with a list that is not empty and not headed by
  a setter, without the indices.
\<close>

lemma visit_decorator_own_registrations:
  assumes "decorators \<noteq> []" and "\<not> is_setter (hd decorators)"
  shows "visit_decorator_own func decorators self =
     (let kept = filter (\<lambda>d. get_singledispatch_register_call_info d func = None) decorators;
          self1 = self\<lparr> singledispatch_impls :=
                    foldl (record_impl (funcdef_id func)) (singledispatch_impls self)
                      (List.map_filter (\<lambda>d. get_singledispatch_register_call_info d func) decorators) \<rparr>
      in if kept = [] then (False, [], self1)
         else (True, kept, self1\<lparr> funcs_to_decorators :=
                                   (funcs_to_decorators self)(funcdef_id func \<mapsto> kept) \<rparr>))"
proof -
  obtain self1 removed where loop: "register_loop func 0 decorators (self, []) = (self1, removed)"
    by (cases "register_loop func 0 decorators (self, [])")
  have r: "removed = filter (\<lambda>k. get_singledispatch_register_call_info (decorators ! k) func \<noteq> None)
                      [0..<length decorators]"
    using register_loop_removed [of func 0 decorators self "[]"] loop by simp
  have s: "self1 = self\<lparr> singledispatch_impls :=
          foldl (record_impl (funcdef_id func)) (singledispatch_impls self)
            (List.map_filter (\<lambda>d. get_singledispatch_register_call_info d func) decorators) \<rparr>"
    using register_loop_self [of func 0 decorators self "[]"] loop by simp
  have d: "del_reversed removed decorators
            = filter (\<lambda>d. get_singledispatch_register_call_info d func = None) decorators"
    unfolding r using del_reversed_filter
      [of "\<lambda>d. get_singledispatch_register_call_info d func \<noteq> None" decorators] by simp
  show ?thesis
    using assms by (simp add: visit_decorator_own_def loop d Let_def s)
qed

lemma registration_not_setter:
  "get_singledispatch_register_call_info d func \<noteq> None \<Longrightarrow> \<not> is_setter d"
  by (cases d) (auto split: list.splits argument.splits var_type.splits
        elim!: registered_impl_from_possible_register_call.elims)

text \<open>
  Claim C10.  Every decorator of a decorated function is recognized as a registration.
  Then the visit of the \<^verbatim>\<open>Decorator\<close> node returns with the node's list emptied and
  with a visitor that differs from the one before in \<^verbatim>\<open>singledispatch_impls\<close>
  only: the stack, \<^verbatim>\<open>nested_funcs\<close>, \<^verbatim>\<open>encapsulating_funcs\<close>,
  \<^verbatim>\<open>symbols_to_funcs\<close> and \<^verbatim>\<open>free_variables\<close> are those of the visitor before,
  whatever the function's body is and whatever is on the stack.
\<close>

theorem register_only_decorator_skips_traversal:
  assumes "decorators \<noteq> []"
    and "\<forall>d \<in> set decorators. get_singledispatch_register_call_info d func \<noteq> None"
  shows "visit_stmt (Decorator func var decorators) self =
           Some (Decorator func var [],
                 self\<lparr> singledispatch_impls :=
                    foldl (record_impl (funcdef_id func)) (singledispatch_impls self)
                      (List.map_filter (\<lambda>d. get_singledispatch_register_call_info d func) decorators) \<rparr>)"
proof -
  from assms have "get_singledispatch_register_call_info (hd decorators) func \<noteq> None"
    using hd_in_set [of decorators] by blast
  then have "\<not> is_setter (hd decorators)"
    by (rule registration_not_setter)
  moreover from assms(2)
  have "filter (\<lambda>d. get_singledispatch_register_call_info d func = None) decorators = []"
    by (simp add: filter_empty_conv)
  ultimately show ?thesis
    using assms(1) by (simp add: visit_decorator_own_registrations)
qed

theorem register_only_decorator_skips_traversal_witness:
  "\<exists>defs self.
     analyze [FuncDefStmt (FuncDef 1 []
                [AssignmentStmt [NameExpr (2, 4) ''x'' None (VarNode 0)] (IntExpr (2, 8) 1),
                 Decorator (FuncDef 5 [] [ReturnStmt (Some (NameExpr (5, 15) ''x'' None (VarNode 0)))])
                   9 [register_int]])]
       = Some (defs, self)
     \<and> nested_funcs self 5 = None \<and> encapsulating_funcs self 1 = None
     \<and> free_variables self 1 = None \<and> symbols_to_funcs self (VarNode 0) = Some 1
     \<and> funcs_to_decorators self 5 = None
     \<and> singledispatch_impls self 7 = Some [(3, 5)]"
  using register_only_decorator_skips_traversal [of "[register_int]"
      "FuncDef 5 [] [ReturnStmt (Some (NameExpr (5, 15) ''x'' None (VarNode 0)))]" 9]
  by (simp add: analyze_def init_def visit_func_enter_def visit_func_leave_def visit_var_def
      visit_symbol_node_def is_parent.simps add_free_variable_def setdefault_add_def
      setdefault_append_def
      register_int_def record_impl_def List.map_filter_simps)

subsection \<open>Acyclic parent links\<close>

lemma is_parent_returns:
  assumes "wf (parent_rel self)"
  shows "\<exists>b. is_parent self fitem child = Some b"
  using assms
proof (induction child rule: wf_induct_rule)
  case (less child)
  show ?case
  proof (cases "nested_funcs self child")
    case None
    then show ?thesis by (subst is_parent.simps) auto
  next
    case (Some parent)
    then have "(parent, child) \<in> parent_rel self" by (simp add: parent_rel_def)
    from less.IH [OF this] obtain b where "is_parent self fitem parent = Some b" ..
    with Some show ?thesis by (subst is_parent.simps) auto
  qed
qed

lemma visit_symbol_node_returns:
  assumes "wf (parent_rel self)"
  shows "\<exists>self'. visit_symbol_node symbol self = Some self'
           \<and> nested_funcs self' = nested_funcs self \<and> funcs self' = funcs self"
proof -
  obtain b1 where b1: "is_parent self (last (funcs self)) (the (symbols_to_funcs self symbol)) = Some b1"
    using is_parent_returns [OF assms] by blast
  obtain b2 where b2: "is_parent self (the (symbols_to_funcs self symbol)) (last (funcs self)) = Some b2"
    using is_parent_returns [OF assms] by blast
  show ?thesis
    using b1 b2 by (auto simp: visit_symbol_node_def add_free_variable_def split: option.splits)
qed

lemma returns_same:
  assumes "wf (parent_rel self)"
    and "r = Some self'" and "nested_funcs self' = nested_funcs self" and "funcs self' = funcs self"
  shows "returns ids self r"
  using assms by (auto simp: returns_def parent_rel_def known_def)

lemma visit_symbol_node_ok:
  "wf (parent_rel self) \<Longrightarrow> returns [] self (visit_symbol_node symbol self)"
  using visit_symbol_node_returns [of self symbol] by (auto intro: returns_same)

lemma returns_bind:
  assumes "fresh (xs @ ys) self"
    and "fresh xs self \<Longrightarrow> returns xs self r"
    and "\<And>self1. r = Some self1 \<Longrightarrow> fresh ys self1 \<Longrightarrow> returns ys self1 (g self1)"
  shows "returns (xs @ ys) self (r \<bind> g)"
proof -
  from assms(1) have fx: "fresh xs self"
    by (auto simp: fresh_def)
  from assms(2) [OF fx] obtain self1 where r: "r = Some self1" and w1: "wf (parent_rel self1)"
    and f1: "funcs self1 = funcs self" and k1: "known self1 \<subseteq> known self \<union> set xs"
    by (auto simp: returns_def)
  from assms(1) k1 w1 have "fresh ys self1"
    by (auto simp: fresh_def)
  from assms(3) [OF r this] obtain self2 where g: "g self1 = Some self2" and w2: "wf (parent_rel self2)"
    and f2: "funcs self2 = funcs self1" and k2: "known self2 \<subseteq> known self1 \<union> set ys"
    by (auto simp: returns_def)
  show ?thesis
    using r g w2 f1 f2 k1 k2 by (auto simp: returns_def)
qed

lemma returns_Some:
  "wf (parent_rel self) \<Longrightarrow> returns ids self (Some self)"
  by (auto simp: returns_def)

lemma returns_nil_bind:
  assumes "fresh ys self"
    and "returns [] self r"
    and "\<And>self1. r = Some self1 \<Longrightarrow> fresh ys self1 \<Longrightarrow> returns ys self1 (g self1)"
  shows "returns ys self (r \<bind> g)"
  using returns_bind [of "[]" ys self r g] assms by (simp add: fresh_def)

lemma fresh_wf: "fresh ids self \<Longrightarrow> wf (parent_rel self)"
  by (simp add: fresh_def)

lemma visit_vars_ok:
  "wf (parent_rel self) \<Longrightarrow> returns [] self (visit_vars arguments self)"
proof (induction arguments arbitrary: self)
  case Nil
  then show ?case by (simp add: returns_Some)
next
  case (Cons a arguments)
  obtain v t i where a: "a = Argument v t i" by (cases a)
  from Cons.prems have "fresh [] self" by (simp add: fresh_def)
  then have "returns [] self (visit_symbol_node (VarNode v) self \<bind> visit_vars arguments)"
    by (rule returns_nil_bind) (auto intro: visit_symbol_node_ok Cons.IH Cons.prems fresh_wf)
  then show ?case by (simp add: a visit_var_def)
qed

lemma parent_rel_enter:
  assumes "wf (parent_rel self)" and "func \<notin> known self"
  shows "wf (parent_rel (visit_func_enter func self))"
proof (cases "funcs self = []")
  case True
  with assms show ?thesis by (simp add: visit_func_enter_def parent_rel_def)
next
  case False
  let ?top = "last (funcs self)"
  from assms(2) have nd: "nested_funcs self func = None" and nr: "func \<notin> ran (nested_funcs self)"
    and nt: "func \<noteq> ?top"
    using False by (auto simp: known_def)
  have eq: "parent_rel (visit_func_enter func self) = insert (?top, func) (parent_rel self)"
    using False nd by (auto simp: visit_func_enter_def parent_rel_def Let_def split: if_splits)
  have "(func, ?top) \<notin> (parent_rel self)\<^sup>*"
  proof
    assume "(func, ?top) \<in> (parent_rel self)\<^sup>*"
    then show False
    proof (cases rule: converse_rtranclE)
      case base
      with nt show ?thesis by simp
    next
      case (step y)
      then have "nested_funcs self y = Some func" by (simp add: parent_rel_def)
      with nr show ?thesis by (auto simp: ran_def)
    qed
  qed
  with assms(1) show ?thesis
    unfolding eq by (simp add: wf_insert)
qed

lemma known_enter:
  "known (visit_func_enter func self) \<subseteq> insert func (known self)"
  by (auto simp: visit_func_enter_def known_def Let_def ran_def split: if_splits)

lemma funcs_enter: "funcs (visit_func_enter func self) = funcs self @ [func]"
  by (simp add: visit_func_enter_def Let_def)

lemma fresh_enter:
  assumes "fresh (func # ids) self"
  shows "fresh ids (visit_func_enter func self)"
  using assms known_enter [of func self] parent_rel_enter [of self func]
  by (auto simp: fresh_def)

lemma returns_leave:
  assumes "fresh (func # ids) self"
    and "returns ids (visit_func_enter func self) r"
  shows "returns (func # ids) self (r \<bind> (\<lambda>self3. Some (visit_func_leave self3)))"
proof -
  from assms(2) obtain self3 where r: "r = Some self3" and w: "wf (parent_rel self3)"
    and f: "funcs self3 = funcs self @ [func]"
    and k: "known self3 \<subseteq> known (visit_func_enter func self) \<union> set ids"
    by (auto simp: returns_def funcs_enter)
  have "parent_rel (visit_func_leave self3) = parent_rel self3"
    by (simp add: visit_func_leave_def parent_rel_def)
  moreover have "funcs (visit_func_leave self3) = funcs self"
    by (simp add: visit_func_leave_def f)
  moreover have "known (visit_func_leave self3) \<subseteq> known self3"
    by (auto simp: visit_func_leave_def known_def f)
  ultimately show ?thesis
    using r w k known_enter [of func self] by (auto simp: returns_def)
qed

lemma visit_name_expr_ok:
  "wf (parent_rel self) \<Longrightarrow> returns [] self (visit_name_expr nd self)"
  by (cases nd) (simp_all add: visit_symbol_node_ok returns_Some)

lemma visit_expr_ok:
  "fresh (expr_funcs e) self \<Longrightarrow> returns (expr_funcs e) self (visit_expr e self)"
  "fresh (exprs_funcs es) self' \<Longrightarrow> returns (exprs_funcs es) self' (visit_exprs es self')"
  "fresh (arguments_funcs arguments) self'' \<Longrightarrow>
     returns (arguments_funcs arguments) self'' (visit_initializers arguments self'')"
proof (induction e self and es self' and arguments self''
       rule: visit_expr_visit_exprs_visit_initializers.induct)
  case (1 p name fn nd self)
  then show ?case by (simp add: visit_name_expr_ok fresh_wf)
next
  case (3 p b i self)
  from "3.prems" have "fresh (expr_funcs b @ expr_funcs i) self" by simp
  then have "returns (expr_funcs b @ expr_funcs i) self (visit_expr b self \<bind> visit_expr i)"
    by (rule returns_bind) (auto intro: "3.IH")
  then show ?case by simp
next
  case (6 p callee args arg_names self)
  from "6.prems" have "fresh (exprs_funcs args @ expr_funcs callee) self" by simp
  then have "returns (exprs_funcs args @ expr_funcs callee) self
               (visit_exprs args self \<bind> visit_expr callee)"
    by (rule returns_bind) (auto intro: "6.IH")
  then show ?case by simp
next
  case (7 p opr l r self)
  from "7.prems" have "fresh (expr_funcs l @ expr_funcs r) self" by simp
  then have "returns (expr_funcs l @ expr_funcs r) self (visit_expr l self \<bind> visit_expr r)"
    by (rule returns_bind) (auto intro: "7.IH")
  then show ?case by simp
next
  case (16 p func arguments body self)
  let ?ids = "arguments_funcs arguments @ expr_funcs body"
  from "16.prems" have fr: "fresh (func # ?ids) self" by simp
  then have fe: "fresh ?ids (visit_func_enter func self)" by (rule fresh_enter)
  have "returns ?ids (visit_func_enter func self)
          (visit_initializers arguments (visit_func_enter func self)
             \<bind> (\<lambda>self1. visit_vars arguments self1 \<bind> visit_expr body))"
    using fe
  proof (rule returns_bind)
    assume "fresh (arguments_funcs arguments) (visit_func_enter func self)"
    then show "returns (arguments_funcs arguments) (visit_func_enter func self)
                 (visit_initializers arguments (visit_func_enter func self))"
      by (rule "16.IH"(1))
  next
    fix self1
    assume s1: "visit_initializers arguments (visit_func_enter func self) = Some self1"
      and f1: "fresh (expr_funcs body) self1"
    from f1 show "returns (expr_funcs body) self1 (visit_vars arguments self1 \<bind> visit_expr body)"
      by (rule returns_nil_bind) (auto intro: visit_vars_ok fresh_wf f1 "16.IH"(2) [OF s1])
  qed
  with fr have "returns (func # ?ids) self
          (visit_initializers arguments (visit_func_enter func self)
             \<bind> (\<lambda>self1. visit_vars arguments self1 \<bind> visit_expr body)
             \<bind> (\<lambda>self3. Some (visit_func_leave self3)))"
    by (rule returns_leave)
  then show ?case by (simp add: Option.bind_assoc)
next
  case (18 e es self)
  from "18.prems" have "fresh (expr_funcs e @ exprs_funcs es) self" by simp
  then have "returns (expr_funcs e @ exprs_funcs es) self (visit_expr e self \<bind> visit_exprs es)"
    by (rule returns_bind) (auto intro: "18.IH")
  then show ?case by simp
next
  case (21 v t initializer arguments self)
  from "21.prems" have "fresh (expr_funcs initializer @ arguments_funcs arguments) self" by simp
  then have "returns (expr_funcs initializer @ arguments_funcs arguments) self
               (visit_expr initializer self \<bind> visit_initializers arguments)"
    by (rule returns_bind) (auto intro: "21.IH")
  then show ?case by simp
qed (simp_all add: returns_Some fresh_wf)

lemma fresh_same:
  "nested_funcs self1 = nested_funcs self \<Longrightarrow> funcs self1 = funcs self \<Longrightarrow>
     fresh ids self1 = fresh ids self"
  by (simp add: fresh_def parent_rel_def known_def)

lemma returns_from_same:
  "nested_funcs self1 = nested_funcs self \<Longrightarrow> funcs self1 = funcs self \<Longrightarrow>
     returns ids self1 r = returns ids self r"
  by (simp add: returns_def parent_rel_def known_def)

lemma returns_mono:
  "returns ids self r \<Longrightarrow> set ids \<subseteq> set ids' \<Longrightarrow> returns ids' self r"
  by (auto simp: returns_def)

lemma exprs_funcs_filter:
  "set (exprs_funcs (filter P ds)) \<subseteq> set (exprs_funcs ds)"
  "distinct (exprs_funcs ds) \<Longrightarrow> distinct (exprs_funcs (filter P ds))"
  by (induction ds) auto

lemma fresh_filter:
  assumes "fresh (xs @ exprs_funcs ds) self"
  shows "fresh (xs @ exprs_funcs (filter P ds)) self"
  using assms exprs_funcs_filter [where P = P and ds = ds] by (auto simp: fresh_def)

lemma visit_decorator_own_frame:
  assumes "visit_decorator_own func ds self = (proceed, ds1, self1)"
  shows "nested_funcs self1 = nested_funcs self \<and> funcs self1 = funcs self
         \<and> (\<exists>P. ds1 = filter P ds)"
proof (cases "ds \<noteq> [] \<and> \<not> is_setter (hd ds)")
  case True
  then have "ds1 = filter (\<lambda>d. get_singledispatch_register_call_info d func = None) ds"
    and "nested_funcs self1 = nested_funcs self" and "funcs self1 = funcs self"
    using assms by (auto simp: visit_decorator_own_registrations Let_def split: if_splits)
  then show ?thesis by blast
next
  case False
  then have "ds1 = ds" and "nested_funcs self1 = nested_funcs self" and "funcs self1 = funcs self"
    using assms by (auto simp: visit_decorator_own_def split: if_splits)
  moreover have "ds = filter (\<lambda>_. True) ds" by simp
  ultimately show ?thesis by metis
qed

lemma snd_visit_func_def:
  "map_option snd (visit_func_def (FuncDef func arguments body) self) =
     (visit_initializers arguments (visit_func_enter func self)
        \<bind> (\<lambda>self1. visit_vars arguments self1
               \<bind> (\<lambda>self2. map_option snd (visit_block body self2))))
     \<bind> (\<lambda>self3. Some (visit_func_leave self3))"
  by (auto split: Option.bind_splits)

lemma snd_visit_block:
  "map_option snd (visit_block (s # ss) self) =
     map_option snd (visit_stmt s self) \<bind> (\<lambda>self1. map_option snd (visit_block ss self1))"
  by (auto split: Option.bind_splits)

lemma snd_visit_decorator:
  "map_option snd (visit_stmt (Decorator func var decorators) self) =
     (case visit_decorator_own func decorators self of
        (proceed, decorators1, self1) \<Rightarrow>
          if proceed then
            map_option snd (visit_func_def func self1)
              \<bind> (\<lambda>self2. visit_var var self2 \<bind> visit_exprs decorators1)
          else Some self1)"
  by (auto split: Option.bind_splits prod.splits)

lemma snd_visit_stmt:
  "map_option snd (visit_stmt (FuncDefStmt fdef) self) = map_option snd (visit_func_def fdef self)"
  "map_option snd (visit_stmt (ExpressionStmt e) self) = visit_expr e self"
  "map_option snd (visit_stmt (AssignmentStmt lvalues rvalue) self) =
     visit_expr rvalue self \<bind> visit_exprs lvalues"
  "map_option snd (visit_stmt (ReturnStmt None) self) = Some self"
  "map_option snd (visit_stmt (ReturnStmt (Some e)) self) = visit_expr e self"
  by (auto split: Option.bind_splits)

lemma visit_stmt_ok:
  "fresh (funcdef_funcs fdef) self \<Longrightarrow>
     returns (funcdef_funcs fdef) self (map_option snd (visit_func_def fdef self))"
  "fresh (stmt_funcs s) self' \<Longrightarrow>
     returns (stmt_funcs s) self' (map_option snd (visit_stmt s self'))"
  "fresh (block_funcs ss) self'' \<Longrightarrow>
     returns (block_funcs ss) self'' (map_option snd (visit_block ss self''))"
proof (induction fdef self and s self' and ss self''
       rule: visit_func_def_visit_stmt_visit_block.induct)
  case (1 func arguments body self)
  let ?ids = "arguments_funcs arguments @ block_funcs body"
  from "1.prems" have fr: "fresh (func # ?ids) self" by simp
  then have fe: "fresh ?ids (visit_func_enter func self)" by (rule fresh_enter)
  have "returns ?ids (visit_func_enter func self)
          (visit_initializers arguments (visit_func_enter func self)
             \<bind> (\<lambda>self1. visit_vars arguments self1
                    \<bind> (\<lambda>self2. map_option snd (visit_block body self2))))"
    using fe
  proof (rule returns_bind)
    assume "fresh (arguments_funcs arguments) (visit_func_enter func self)"
    then show "returns (arguments_funcs arguments) (visit_func_enter func self)
                 (visit_initializers arguments (visit_func_enter func self))"
      by (rule visit_expr_ok(3))
  next
    fix self1
    assume s1: "visit_initializers arguments (visit_func_enter func self) = Some self1"
      and f1: "fresh (block_funcs body) self1"
    from f1 show "returns (block_funcs body) self1
        (visit_vars arguments self1 \<bind> (\<lambda>self2. map_option snd (visit_block body self2)))"
      by (rule returns_nil_bind) (auto intro: visit_vars_ok fresh_wf f1 "1.IH" [OF s1])
  qed
  with fr show ?case
    unfolding snd_visit_func_def funcdef_funcs.simps by (rule returns_leave)
next
  case (2 fdef self)
  then show ?case by (simp add: snd_visit_stmt del: visit_stmt.simps)
next
  case (3 func var decorators self)
  obtain proceed ds1 self1 where own: "visit_decorator_own func decorators self = (proceed, ds1, self1)"
    by (cases "visit_decorator_own func decorators self")
  from visit_decorator_own_frame [OF own] obtain P
    where n: "nested_funcs self1 = nested_funcs self" and f: "funcs self1 = funcs self"
      and ds1: "ds1 = filter P decorators"
    by blast
  from "3.prems" have fr: "fresh (funcdef_funcs func @ exprs_funcs decorators) self" by simp
  show ?case
  proof (cases proceed)
    case False
    from fr have "returns (stmt_funcs (Decorator func var decorators)) self1 (Some self1)"
      by (intro returns_Some) (simp add: fresh_def parent_rel_def n)
    then show ?thesis
      by (simp add: snd_visit_decorator own False returns_from_same [OF n f]
               del: visit_stmt.simps)
  next
    case True
    from fr have "fresh (funcdef_funcs func @ exprs_funcs ds1) self1"
      unfolding ds1 by (simp add: fresh_filter fresh_same [OF n f])
    then have "returns (funcdef_funcs func @ exprs_funcs ds1) self1
       (map_option snd (visit_func_def func self1)
          \<bind> (\<lambda>self2. visit_var var self2 \<bind> visit_exprs ds1))"
    proof (rule returns_bind)
      assume "fresh (funcdef_funcs func) self1"
      then show "returns (funcdef_funcs func) self1 (map_option snd (visit_func_def func self1))"
        using "3.IH" [OF own [symmetric] refl True] by simp
    next
      fix self2
      assume f2: "fresh (exprs_funcs ds1) self2"
      then show "returns (exprs_funcs ds1) self2 (visit_var var self2 \<bind> visit_exprs ds1)"
        by (rule returns_nil_bind)
           (auto intro: visit_symbol_node_ok fresh_wf f2 visit_expr_ok(2) simp: visit_var_def)
    qed
    then have "returns (funcdef_funcs func @ exprs_funcs decorators) self1
       (map_option snd (visit_func_def func self1)
          \<bind> (\<lambda>self2. visit_var var self2 \<bind> visit_exprs ds1))"
      by (rule returns_mono)
         (use exprs_funcs_filter(1) [where P = P and ds = decorators] ds1 in auto)
    then show ?thesis
      by (simp add: snd_visit_decorator own True returns_from_same [OF n f]
               del: visit_stmt.simps)
  qed
next
  case (4 e self)
  then show ?case by (simp add: snd_visit_stmt visit_expr_ok del: visit_stmt.simps)
next
  case (5 lvalues rvalue self)
  from "5.prems" have "fresh (expr_funcs rvalue @ exprs_funcs lvalues) self" by simp
  then have "returns (expr_funcs rvalue @ exprs_funcs lvalues) self
               (visit_expr rvalue self \<bind> visit_exprs lvalues)"
    by (rule returns_bind) (auto intro: visit_expr_ok)
  then show ?case by (simp add: snd_visit_stmt del: visit_stmt.simps)
next
  case (6 self)
  then show ?case by (simp add: returns_Some fresh_wf)
next
  case (7 e self)
  then show ?case by (simp add: snd_visit_stmt visit_expr_ok del: visit_stmt.simps)
next
  case (8 self)
  then show ?case by (simp add: returns_Some fresh_wf)
next
  case (9 s ss self)
  from "9.prems" have "fresh (stmt_funcs s @ block_funcs ss) self" by simp
  then have "returns (stmt_funcs s @ block_funcs ss) self
      (map_option snd (visit_stmt s self) \<bind> (\<lambda>self1. map_option snd (visit_block ss self1)))"
  proof (rule returns_bind)
    assume "fresh (stmt_funcs s) self"
    then show "returns (stmt_funcs s) self (map_option snd (visit_stmt s self))"
      by (rule "9.IH"(1))
  next
    fix self1
    assume "map_option snd (visit_stmt s self) = Some self1" and f1: "fresh (block_funcs ss) self1"
    then obtain s1 where "visit_stmt s self = Some (s1, self1)" by auto
    from "9.IH"(2) [OF this refl f1]
    show "returns (block_funcs ss) self1 (map_option snd (visit_block ss self1))" .
  qed
  then show ?case
    unfolding snd_visit_block by simp
qed

text \<open>
  Claim C9.  Where the parent links are acyclic, \<^verbatim>\<open>is_parent\<close> returns for every
  pair of function items.  \<^verbatim>\<open>visit_func\<close> gives a function its parent when it
  enters it, and the parent is the top of the stack.  A visit that starts with acyclic
  links, at statements whose function items are distinct and not known yet, returns
  with acyclic links: so every call of \<^verbatim>\<open>is_parent\<close> that the traversal makes
  returns.  The pass over a source unit with distinct function items returns, and in
  its result the links are acyclic and \<^verbatim>\<open>is_parent\<close> returns for every pair.
\<close>

theorem nested_funcs_acyclic:
  "(wf (parent_rel self) \<longrightarrow> (\<exists>b. is_parent self fitem child = Some b))
   \<and> (funcs self \<noteq> [] \<longrightarrow>
        nested_funcs (visit_func_enter func self) = (nested_funcs self)(func \<mapsto> last (funcs self)))
   \<and> (wf (parent_rel self) \<and> distinct (block_funcs ss) \<and> set (block_funcs ss) \<inter> known self = {} \<longrightarrow>
        (\<exists>ss1 self1. visit_block ss self = Some (ss1, self1) \<and> wf (parent_rel self1)
            \<and> funcs self1 = funcs self \<and> known self1 \<subseteq> known self \<union> set (block_funcs ss)))
   \<and> (distinct (block_funcs defs) \<longrightarrow>
        (\<exists>defs1 self1. analyze defs = Some (defs1, self1) \<and> wf (parent_rel self1)
            \<and> (\<forall>fitem child. \<exists>b. is_parent self1 fitem child = Some b)))"
proof (intro conjI impI)
  assume "wf (parent_rel self)"
  then show "\<exists>b. is_parent self fitem child = Some b" by (rule is_parent_returns)
next
  assume "funcs self \<noteq> []"
  then show "nested_funcs (visit_func_enter func self) = (nested_funcs self)(func \<mapsto> last (funcs self))"
    by (simp add: visit_func_enter_def)
next
  assume "wf (parent_rel self) \<and> distinct (block_funcs ss) \<and> set (block_funcs ss) \<inter> known self = {}"
  then have "fresh (block_funcs ss) self" by (simp add: fresh_def)
  then have "returns (block_funcs ss) self (map_option snd (visit_block ss self))"
    by (rule visit_stmt_ok(3))
  then show "\<exists>ss1 self1. visit_block ss self = Some (ss1, self1) \<and> wf (parent_rel self1)
            \<and> funcs self1 = funcs self \<and> known self1 \<subseteq> known self \<union> set (block_funcs ss)"
    by (auto simp: returns_def)
next
  assume "distinct (block_funcs defs)"
  then have "fresh (block_funcs defs) init"
    by (simp add: fresh_def known_def parent_rel_def init_def)
  then have "returns (block_funcs defs) init (map_option snd (visit_block defs init))"
    by (rule visit_stmt_ok(3))
  then show "\<exists>defs1 self1. analyze defs = Some (defs1, self1) \<and> wf (parent_rel self1)
            \<and> (\<forall>fitem child. \<exists>b. is_parent self1 fitem child = Some b)"
    by (auto simp: returns_def analyze_def is_parent_returns)
qed

theorem nested_funcs_acyclic_witness:
  "distinct (block_funcs
      [FuncDefStmt (FuncDef 1 []
         [AssignmentStmt [NameExpr (2, 4) ''x'' None (VarNode 0)] (IntExpr (2, 8) 1),
          FuncDefStmt (FuncDef 2 []
            [ReturnStmt (Some (NameExpr (4, 15) ''x'' None (VarNode 0)))])])])
   \<and> (\<exists>defs1 self1.
        analyze [FuncDefStmt (FuncDef 1 []
           [AssignmentStmt [NameExpr (2, 4) ''x'' None (VarNode 0)] (IntExpr (2, 8) 1),
            FuncDefStmt (FuncDef 2 []
              [ReturnStmt (Some (NameExpr (4, 15) ''x'' None (VarNode 0)))])])]
          = Some (defs1, self1)
        \<and> wf (parent_rel self1)
        \<and> (\<forall>fitem child. \<exists>b. is_parent self1 fitem child = Some b))"
proof -
  have d: "distinct (block_funcs
      [FuncDefStmt (FuncDef 1 []
         [AssignmentStmt [NameExpr (2, 4) ''x'' None (VarNode 0)] (IntExpr (2, 8) 1),
          FuncDefStmt (FuncDef 2 []
            [ReturnStmt (Some (NameExpr (4, 15) ''x'' None (VarNode 0)))])])])"
    by simp
  from d nested_funcs_acyclic [THEN conjunct2, THEN conjunct2, THEN conjunct2, rule_format, OF d]
  show ?thesis by blast
qed

subsection \<open>The tree after the pass\<close>

lemma visit_decorator_own_cases:
  "visit_decorator_own func ds self = (proceed, ds1, self1) \<Longrightarrow>
     (if ds \<noteq> [] \<and> \<not> is_setter (hd ds) then
        ds1 = filter (\<lambda>d. get_singledispatch_register_call_info d func = None) ds
        \<and> proceed = (\<not> (\<forall>d \<in> set ds. get_singledispatch_register_call_info d func \<noteq> None))
      else ds1 = ds \<and> proceed)"
  by (auto simp: visit_decorator_own_registrations Let_def filter_empty_conv split: if_splits)
     (auto simp: visit_decorator_own_def split: if_splits)

lemma visit_leaves_stripped:
  "visit_func_def fdef self = Some (fdef1, self1) \<Longrightarrow> fdef1 = strip_func_def fdef"
  "visit_stmt s self' = Some (s1, self1') \<Longrightarrow> s1 = strip_stmt s"
  "visit_block ss self'' = Some (ss1, self1'') \<Longrightarrow> ss1 = strip_block ss"
proof (induction fdef self and s self' and ss self'' arbitrary: fdef1 self1 and s1 self1' and ss1 self1''
       rule: visit_func_def_visit_stmt_visit_block.induct)
  case (3 func var decorators self)
  obtain proceed ds1 selfa where own: "visit_decorator_own func decorators self = (proceed, ds1, selfa)"
    by (cases "visit_decorator_own func decorators self")
  note c = visit_decorator_own_cases [OF own]
  show ?case
  proof (cases proceed)
    case False
    with "3.prems" own c show ?thesis
      by (auto split: if_splits)
  next
    case True
    with "3.prems" own obtain func1 self2 where v: "visit_func_def func selfa = Some (func1, self2)"
      and s1: "s1 = Decorator func1 var ds1"
      by (auto split: Option.bind_splits)
    from "3.IH" [OF own [symmetric] refl True v] have "func1 = strip_func_def func" .
    with s1 c True show ?thesis
      by (auto split: if_splits)
  qed
qed (auto split: Option.bind_splits)

text \<open>
  Claim C8, as stated, at a function with the decorators \<^verbatim>\<open>@d1\<close> and
  \<^verbatim>\<open>@f.register(int)\<close>: after the pass the node has the decorator \<^verbatim>\<open>@d1\<close> only.
\<close>

theorem input_tree_changed_counterexample:
  "map_option fst (analyze [Decorator (FuncDef 5 [] []) 9 [plain_d1, register_int]])
     = Some [Decorator (FuncDef 5 [] []) 9 [plain_d1]]
   \<and> [Decorator (FuncDef 5 [] []) 9 [plain_d1]]
       \<noteq> [Decorator (FuncDef 5 [] []) 9 [plain_d1, register_int]]"
  by (simp add: analyze_def init_def visit_func_enter_def visit_func_leave_def visit_var_def
      visit_symbol_node_def is_parent.simps add_free_variable_def setdefault_add_def
      setdefault_append_def
      plain_d1_def register_int_def visit_decorator_own_def del_reversed_def del_at_def Let_def)

text \<open>
  Claim C8, amended.  The pass over a source unit (with distinct function items)
  returns, and the tree it leaves is \<open>strip_block\<close> of the tree it was given: the
  decorator list of a \<^verbatim>\<open>Decorator\<close> node that is not headed by a setter has lost the
  decorators recognized as registrations, a function all of whose decorators were
  registrations has not been entered, and every other node is as before.
\<close>

theorem pass_strips_registrations:
  assumes "distinct (block_funcs defs)"
  shows "\<exists>self. analyze defs = Some (strip_block defs, self)"
proof -
  from assms have "fresh (block_funcs defs) init"
    by (simp add: fresh_def known_def parent_rel_def init_def)
  then have "returns (block_funcs defs) init (map_option snd (visit_block defs init))"
    by (rule visit_stmt_ok(3))
  then obtain defs1 self1 where a: "visit_block defs init = Some (defs1, self1)"
    by (auto simp: returns_def)
  then have "defs1 = strip_block defs" by (rule visit_leaves_stripped(3))
  with a show ?thesis by (auto simp: analyze_def)
qed

theorem pass_strips_registrations_witness:
  "distinct (block_funcs [Decorator (FuncDef 5 [] []) 9 [plain_d1, register_int]])
   \<and> (\<exists>self. analyze [Decorator (FuncDef 5 [] []) 9 [plain_d1, register_int]]
               = Some ([Decorator (FuncDef 5 [] []) 9 [plain_d1]], self))"
proof -
  have d: "distinct (block_funcs [Decorator (FuncDef 5 [] []) 9 [plain_d1, register_int]])"
    by (simp add: plain_d1_def register_int_def)
  have s: "strip_block [Decorator (FuncDef 5 [] []) 9 [plain_d1, register_int]]
             = [Decorator (FuncDef 5 [] []) 9 [plain_d1]]"
    by (simp add: plain_d1_def register_int_def)
  from d pass_strips_registrations [OF d] show ?thesis
    unfolding s by blast
qed

subsection \<open>What the pass stores for a decorated function\<close>




lemma enter_leave_decorators [simp]:
  "funcs_to_decorators (visit_func_enter func self) = funcs_to_decorators self"
  "funcs_to_decorators (visit_func_leave self) = funcs_to_decorators self"
  by (simp_all add: visit_func_enter_def visit_func_leave_def Let_def)








subsection \<open>The free variable of a nested function\<close>



































lemma entered_append [simp]: "entered (evs @ evs') = entered evs @ entered evs'"
  by (induction evs rule: entered.induct) simp_all

lemma sighted_append [simp]: "sighted (evs @ evs') = sighted evs @ sighted evs'"
  by (induction evs rule: sighted.induct) simp_all

lemma sighted_here_append [simp]:
  "sighted_here (evs @ evs') = sighted_here evs @ sighted_here evs'"
  by (induction evs rule: sighted_here.induct) simp_all

lemma entered_here_append [simp]:
  "entered_here (evs @ evs') = entered_here evs @ entered_here evs'"
  by (induction evs rule: entered_here.induct) simp_all

lemma scopes_append [simp]: "scopes (evs @ evs') = scopes evs @ scopes evs'"
  by (induction evs rule: scopes.induct) simp_all

lemma entered_symbols [simp]: "entered (map Symbol xs) = []"
  by (induction xs) simp_all








lemma sighted_before_absent:
  "outer \<notin> set (entered evs) \<Longrightarrow> sighted_before outer evs = sighted evs"
  by (induction evs rule: sighted.induct) auto












end
